theory Spec2Isabelle
  imports Main "HOL-Library.Word" "HOL-Library.Sublist"
begin

unbundle bit_operations_syntax

section \<open>Logical keys and modifiers\<close>

text \<open>
  Modelled from the spec: the enumeration \<open>typr::io::Key\<close> is declared in the header
  \<open>typr-io/core.hpp\<close>, which is not among the sources. Its enumerators are taken to be
  the keys that \<open>Impl::initKeyMap\<close> names, plus the sentinel \<open>Unknown\<close> of the spec
  (value 0 in \<open>c_api.h\<close>). The enumeration is flat in the source; here it is split
  into the groups of \<open>initKeyMap\<close>'s comments, so that \<open>Key::A\<close> is written
  \<open>Letter Key_A\<close> and \<open>Key::ShiftLeft\<close> is \<open>ModKey Key_ShiftLeft\<close>.
\<close>

datatype LetterKey =
    Key_A | Key_B | Key_C | Key_D | Key_E | Key_F | Key_G | Key_H | Key_I
  | Key_J | Key_K | Key_L | Key_M | Key_N | Key_O | Key_P | Key_Q | Key_R
  | Key_S | Key_T | Key_U | Key_V | Key_W | Key_X | Key_Y | Key_Z

datatype NumberKey =
    Key_Num0 | Key_Num1 | Key_Num2 | Key_Num3 | Key_Num4
  | Key_Num5 | Key_Num6 | Key_Num7 | Key_Num8 | Key_Num9

datatype FunctionKey =
    Key_F1 | Key_F2 | Key_F3 | Key_F4 | Key_F5 | Key_F6 | Key_F7 | Key_F8
  | Key_F9 | Key_F10 | Key_F11 | Key_F12 | Key_F13 | Key_F14 | Key_F15
  | Key_F16 | Key_F17 | Key_F18 | Key_F19 | Key_F20

datatype ControlKey =
    Key_Enter | Key_Escape | Key_Backspace | Key_Tab | Key_Space

datatype NavigationKey =
    Key_Left | Key_Right | Key_Up | Key_Down | Key_Home | Key_End
  | Key_PageUp | Key_PageDown | Key_Delete | Key_Insert

datatype NumpadKey =
    Key_Numpad0 | Key_Numpad1 | Key_Numpad2 | Key_Numpad3 | Key_Numpad4
  | Key_Numpad5 | Key_Numpad6 | Key_Numpad7 | Key_Numpad8 | Key_Numpad9
  | Key_NumpadDivide | Key_NumpadMultiply | Key_NumpadMinus | Key_NumpadPlus
  | Key_NumpadEnter | Key_NumpadDecimal

datatype ModifierKey =
    Key_ShiftLeft | Key_ShiftRight | Key_CtrlLeft | Key_CtrlRight
  | Key_AltLeft | Key_AltRight | Key_SuperLeft | Key_SuperRight
  | Key_CapsLock | Key_NumLock

datatype MiscKey =
    Key_Menu | Key_Mute | Key_VolumeDown | Key_VolumeUp
  | Key_MediaPlayPause | Key_MediaStop | Key_MediaNext | Key_MediaPrevious

datatype PunctuationKey =
    Key_Grave | Key_Minus | Key_Equal | Key_LeftBracket | Key_RightBracket
  | Key_Backslash | Key_Semicolon | Key_Apostrophe | Key_Comma | Key_Period
  | Key_Slash

datatype Key =
    Key_Unknown
  | Letter LetterKey
  | Number NumberKey
  | Function FunctionKey
  | Control ControlKey
  | Navigation NavigationKey
  | Numpad NumpadKey
  | ModKey ModifierKey
  | Misc MiscKey
  | Punctuation PunctuationKey

text \<open>
  \<open>Modifier\<close> is a bitmask in one byte. The bit positions are those of \<open>c_api.h\<close>
  (\<open>TYPR_IO_MOD_SHIFT = 0x01\<close> ... \<open>TYPR_IO_MOD_NUMLOCK = 0x20\<close>), which "match the C++
  API layout".
\<close>

type_synonym Modifier = "8 word"

definition Modifier_None :: Modifier where "Modifier_None = 0x00"
definition Modifier_Shift :: Modifier where "Modifier_Shift = 0x01"
definition Modifier_Ctrl :: Modifier where "Modifier_Ctrl = 0x02"
definition Modifier_Alt :: Modifier where "Modifier_Alt = 0x04"
definition Modifier_Super :: Modifier where "Modifier_Super = 0x08"
definition Modifier_CapsLock :: Modifier where "Modifier_CapsLock = 0x10"
definition Modifier_NumLock :: Modifier where "Modifier_NumLock = 0x20"

text \<open>
  Modelled from the spec: \<open>hasModifier\<close> is declared in the absent header
  \<open>typr-io/core.hpp\<close>; the spec calls the modifier operations "pure bit operations".
  The source only ever passes a single-bit flag, for which "some bit of the flag is set"
  and "all bits of the flag are set" are the same test.
\<close>

definition hasModifier :: "Modifier \<Rightarrow> Modifier \<Rightarrow> bool" where
  "hasModifier mods flag = (mods AND flag \<noteq> 0)"

section \<open>The operating system as seen by the uinput backend\<close>

text \<open>
  Every system call of the backend is appended to a log. What \<open>open\<close> and \<open>write\<close>
  return is not decided by the program: \<open>open_ret\<close> is the result of opening
  \<open>/dev/uinput\<close>, and \<open>write_ret n\<close> is the result of a \<open>write\<close> issued when the
  log holds \<open>n\<close> events. The logging macros \<open>TYPR_IO_LOG_*\<close> have no effect on the
  program and are left out.
\<close>

record uinput_setup =
  bustype :: "16 word"
  vendor :: "16 word"
  product :: "16 word"
  name :: string

datatype ioctl_request =
    UI_SET_EVBIT int
  | UI_SET_KEYBIT int
  | UI_DEV_SETUP uinput_setup
  | UI_DEV_CREATE
  | UI_DEV_DESTROY

datatype os_event =
    Open string
  | Ioctl int ioctl_request
  | Write int "16 word" "16 word" int int
  | SleepUs nat

record os =
  events :: "os_event list"
  open_ret :: int
  write_ret :: "nat \<Rightarrow> int"

definition EV_SYN :: int where "EV_SYN = 0x00"
definition EV_KEY :: int where "EV_KEY = 0x01"
definition SYN_REPORT :: int where "SYN_REPORT = 0"
definition KEY_MAX :: int where "KEY_MAX = 0x2ff"
definition BUS_USB :: "16 word" where "BUS_USB = 0x03"

section \<open>Sender::Impl\<close>

record Impl =
  fd :: int
  currentMods :: Modifier
  keyDelayUs :: "32 word"
  keyMap :: "Key \<rightharpoonup> int"

text \<open>
  The table of \<open>Impl::initKeyMap\<close>, in the source's order. The right-hand sides are the
  values of the \<open>KEY_*\<close> constants of \<open>linux/input-event-codes.h\<close>.
\<close>

definition initKeyMap_entries :: "(Key \<times> int) list" where
  "initKeyMap_entries = [
    (Letter Key_A, 30), (Letter Key_B, 48), (Letter Key_C, 46), (Letter Key_D, 32),
    (Letter Key_E, 18), (Letter Key_F, 33), (Letter Key_G, 34), (Letter Key_H, 35),
    (Letter Key_I, 23), (Letter Key_J, 36), (Letter Key_K, 37), (Letter Key_L, 38),
    (Letter Key_M, 50), (Letter Key_N, 49), (Letter Key_O, 24), (Letter Key_P, 25),
    (Letter Key_Q, 16), (Letter Key_R, 19), (Letter Key_S, 31), (Letter Key_T, 20),
    (Letter Key_U, 22), (Letter Key_V, 47), (Letter Key_W, 17), (Letter Key_X, 45),
    (Letter Key_Y, 21), (Letter Key_Z, 44),
    (Number Key_Num0, 11), (Number Key_Num1, 2), (Number Key_Num2, 3),
    (Number Key_Num3, 4), (Number Key_Num4, 5), (Number Key_Num5, 6),
    (Number Key_Num6, 7), (Number Key_Num7, 8), (Number Key_Num8, 9),
    (Number Key_Num9, 10),
    (Function Key_F1, 59), (Function Key_F2, 60), (Function Key_F3, 61),
    (Function Key_F4, 62), (Function Key_F5, 63), (Function Key_F6, 64),
    (Function Key_F7, 65), (Function Key_F8, 66), (Function Key_F9, 67),
    (Function Key_F10, 68), (Function Key_F11, 87), (Function Key_F12, 88),
    (Function Key_F13, 183), (Function Key_F14, 184), (Function Key_F15, 185),
    (Function Key_F16, 186), (Function Key_F17, 187), (Function Key_F18, 188),
    (Function Key_F19, 189), (Function Key_F20, 190),
    (Control Key_Enter, 28), (Control Key_Escape, 1), (Control Key_Backspace, 14),
    (Control Key_Tab, 15), (Control Key_Space, 57),
    (Navigation Key_Left, 105), (Navigation Key_Right, 106), (Navigation Key_Up, 103),
    (Navigation Key_Down, 108), (Navigation Key_Home, 102), (Navigation Key_End, 107),
    (Navigation Key_PageUp, 104), (Navigation Key_PageDown, 109),
    (Navigation Key_Delete, 111), (Navigation Key_Insert, 110),
    (Numpad Key_Numpad0, 82), (Numpad Key_Numpad1, 79), (Numpad Key_Numpad2, 80),
    (Numpad Key_Numpad3, 81), (Numpad Key_Numpad4, 75), (Numpad Key_Numpad5, 76),
    (Numpad Key_Numpad6, 77), (Numpad Key_Numpad7, 71), (Numpad Key_Numpad8, 72),
    (Numpad Key_Numpad9, 73), (Numpad Key_NumpadDivide, 98),
    (Numpad Key_NumpadMultiply, 55), (Numpad Key_NumpadMinus, 74),
    (Numpad Key_NumpadPlus, 78), (Numpad Key_NumpadEnter, 96),
    (Numpad Key_NumpadDecimal, 83),
    (ModKey Key_ShiftLeft, 42), (ModKey Key_ShiftRight, 54), (ModKey Key_CtrlLeft, 29),
    (ModKey Key_CtrlRight, 97), (ModKey Key_AltLeft, 56), (ModKey Key_AltRight, 100),
    (ModKey Key_SuperLeft, 125), (ModKey Key_SuperRight, 126),
    (ModKey Key_CapsLock, 58), (ModKey Key_NumLock, 69),
    (Misc Key_Menu, 139), (Misc Key_Mute, 113), (Misc Key_VolumeDown, 114),
    (Misc Key_VolumeUp, 115), (Misc Key_MediaPlayPause, 164), (Misc Key_MediaStop, 166),
    (Misc Key_MediaNext, 163), (Misc Key_MediaPrevious, 165),
    (Punctuation Key_Grave, 41), (Punctuation Key_Minus, 12), (Punctuation Key_Equal, 13),
    (Punctuation Key_LeftBracket, 26), (Punctuation Key_RightBracket, 27),
    (Punctuation Key_Backslash, 43), (Punctuation Key_Semicolon, 39),
    (Punctuation Key_Apostrophe, 40), (Punctuation Key_Comma, 51),
    (Punctuation Key_Period, 52), (Punctuation Key_Slash, 53)]"

definition initKeyMap :: "Impl \<Rightarrow> Impl" where
  "initKeyMap this = this\<lparr>keyMap := map_of initKeyMap_entries\<rparr>"

definition syscall :: "os_event \<Rightarrow> os \<Rightarrow> os" where
  "syscall e w = w\<lparr>events := events w @ [e]\<rparr>"

text \<open>
  The constructor \<open>Impl::Impl()\<close>. The members start from their default initialisers
  (\<open>fd{-1}\<close>, \<open>currentMods{Modifier::None}\<close>, \<open>keyDelayUs{1000}\<close>, an empty map); when
  \<open>open\<close> fails the constructor returns at once.
\<close>

definition Impl_ctor :: "os \<Rightarrow> Impl \<times> os" where
  "Impl_ctor w =
    (let this = \<lparr>fd = - 1, currentMods = Modifier_None, keyDelayUs = 1000,
                 keyMap = Map.empty\<rparr>;
         w = syscall (Open ''/dev/uinput'') w;
         this = this\<lparr>fd := open_ret w\<rparr>
     in if fd this < 0 then (this, w)
        else
          let w = syscall (Ioctl (fd this) (UI_SET_EVBIT EV_KEY)) w;
              w = foldl (\<lambda>w i. syscall (Ioctl (fd this) (UI_SET_KEYBIT i)) w) w
                    (map int [0 ..< nat KEY_MAX]);
              usetup = \<lparr>bustype = BUS_USB, vendor = 0x1234, product = 0x5678,
                        name = ''Virtual Keyboard''\<rparr>;
              w = syscall (Ioctl (fd this) (UI_DEV_SETUP usetup)) w;
              w = syscall (Ioctl (fd this) UI_DEV_CREATE) w;
              w = syscall (SleepUs 100000) w
          in (initKeyMap this, w))"

definition linuxKeyCodeFor :: "Impl \<Rightarrow> Key \<Rightarrow> int" where
  "linuxKeyCodeFor this key =
    (case keyMap this key of None \<Rightarrow> - 1 | Some code \<Rightarrow> code)"

definition emit :: "Impl \<Rightarrow> int \<Rightarrow> int \<Rightarrow> int \<Rightarrow> os \<Rightarrow> os" where
  "emit this type code val w =
    (let wrote = write_ret w (length (events w))
     in syscall (Write (fd this) (word_of_int type) (word_of_int code) val wrote) w)"

definition sync :: "Impl \<Rightarrow> os \<Rightarrow> os" where
  "sync this w = emit this EV_SYN SYN_REPORT 0 w"

definition sendKey :: "Impl \<Rightarrow> Key \<Rightarrow> bool \<Rightarrow> os \<Rightarrow> bool \<times> os" where
  "sendKey this key down w =
    (if fd this < 0 then (False, w)
     else
       let code = linuxKeyCodeFor this key
       in if code < 0 then (False, w)
          else
            let w = emit this EV_KEY code (if down then 1 else 0) w;
                w = sync this w
            in (True, w))"

definition delay :: "Impl \<Rightarrow> os \<Rightarrow> os" where
  "delay this w =
    (if keyDelayUs this > 0 then syscall (SleepUs (unat (keyDelayUs this))) w else w)"

section \<open>Sender\<close>

text \<open>
  A \<open>Sender\<close> owns \<open>m_impl\<close>, a \<open>unique_ptr<Impl>\<close> that is null after the Sender has
  been moved from. A state of the program is the Sender together with the operating
  system it talks to. A member function that returns \<open>bool\<close> and changes the state
  becomes a function from the state to the result and the new state. Exhaustion of
  memory in \<open>make_unique\<close> is not modelled.
\<close>

record world =
  m_impl :: "Impl option"
  os :: os

record Capabilities =
  canInjectKeys :: bool
  canInjectText :: bool
  canSimulateHID :: bool
  supportsKeyRepeat :: bool
  needsAccessibilityPerm :: bool
  needsInputMonitoringPerm :: bool
  needsUinputAccess :: bool

definition Sender_ctor :: "os \<Rightarrow> world" where
  "Sender_ctor w = (case Impl_ctor w of (this, w') \<Rightarrow> \<lparr>m_impl = Some this, os = w'\<rparr>)"

definition capabilities :: "world \<Rightarrow> Capabilities" where
  "capabilities s =
    \<lparr>canInjectKeys = (case m_impl s of None \<Rightarrow> False | Some this \<Rightarrow> fd this \<ge> 0),
     canInjectText = False,
     canSimulateHID = True,
     supportsKeyRepeat = True,
     needsAccessibilityPerm = False,
     needsInputMonitoringPerm = False,
     needsUinputAccess = True\<rparr>"

definition isReady :: "world \<Rightarrow> bool" where
  "isReady s = (case m_impl s of None \<Rightarrow> False | Some this \<Rightarrow> fd this \<ge> 0)"

definition requestPermissions :: "world \<Rightarrow> bool \<times> world" where
  "requestPermissions s = (isReady s, s)"

definition keyDown :: "Key \<Rightarrow> world \<Rightarrow> bool \<times> world" where
  "keyDown key s =
    (case m_impl s of
       None \<Rightarrow> (False, s)
     | Some this \<Rightarrow>
         let this =
               (if key = ModKey Key_ShiftLeft \<or> key = ModKey Key_ShiftRight
                then this\<lparr>currentMods := currentMods this OR Modifier_Shift\<rparr>
                else if key = ModKey Key_CtrlLeft \<or> key = ModKey Key_CtrlRight
                then this\<lparr>currentMods := currentMods this OR Modifier_Ctrl\<rparr>
                else if key = ModKey Key_AltLeft \<or> key = ModKey Key_AltRight
                then this\<lparr>currentMods := currentMods this OR Modifier_Alt\<rparr>
                else if key = ModKey Key_SuperLeft \<or> key = ModKey Key_SuperRight
                then this\<lparr>currentMods := currentMods this OR Modifier_Super\<rparr>
                else this)
         in case sendKey this key True (os s) of
              (ok, w) \<Rightarrow> (ok, \<lparr>m_impl = Some this, os = w\<rparr>))"

definition keyUp :: "Key \<Rightarrow> world \<Rightarrow> bool \<times> world" where
  "keyUp key s =
    (case m_impl s of
       None \<Rightarrow> (False, s)
     | Some this \<Rightarrow>
         case sendKey this key False (os s) of
           (result, w) \<Rightarrow>
             let this =
               (if key = ModKey Key_ShiftLeft \<or> key = ModKey Key_ShiftRight
                then this\<lparr>currentMods := currentMods this AND NOT Modifier_Shift\<rparr>
                else if key = ModKey Key_CtrlLeft \<or> key = ModKey Key_CtrlRight
                then this\<lparr>currentMods := currentMods this AND NOT Modifier_Ctrl\<rparr>
                else if key = ModKey Key_AltLeft \<or> key = ModKey Key_AltRight
                then this\<lparr>currentMods := currentMods this AND NOT Modifier_Alt\<rparr>
                else if key = ModKey Key_SuperLeft \<or> key = ModKey Key_SuperRight
                then this\<lparr>currentMods := currentMods this AND NOT Modifier_Super\<rparr>
                else this)
             in (result, \<lparr>m_impl = Some this, os = w\<rparr>))"

text \<open>
  \<open>tap\<close> and \<open>combo\<close> call \<open>m_impl->delay()\<close> without testing \<open>m_impl\<close>. Dereferencing
  a null \<open>unique_ptr\<close> has no defined behaviour; the model returns \<open>None\<close> there.
\<close>

definition m_impl_delay :: "world \<Rightarrow> world option" where
  "m_impl_delay s =
    (case m_impl s of
       None \<Rightarrow> None
     | Some this \<Rightarrow> Some \<lparr>m_impl = Some this, os = delay this (os s)\<rparr>)"

definition tap :: "Key \<Rightarrow> world \<Rightarrow> (bool \<times> world) option" where
  "tap key s =
    (case keyDown key s of
       (down_ok, s1) \<Rightarrow>
         if \<not> down_ok then Some (False, s1)
         else
           (case m_impl_delay s1 of
              None \<Rightarrow> None
            | Some s2 \<Rightarrow> Some (keyUp key s2)))"

definition activeModifiers :: "world \<Rightarrow> Modifier" where
  "activeModifiers s =
    (case m_impl s of None \<Rightarrow> Modifier_None | Some this \<Rightarrow> currentMods this)"

text \<open>
  \<open>ok &= keyDown(k)\<close> evaluates \<open>keyDown(k)\<close> whatever \<open>ok\<close> holds: \<open>&=\<close> does not
  short-circuit.
\<close>

definition and_keyDown :: "Key \<Rightarrow> bool \<times> world \<Rightarrow> bool \<times> world" where
  "and_keyDown key acc =
    (case acc of (ok, s) \<Rightarrow> case keyDown key s of (r, s') \<Rightarrow> (ok \<and> r, s'))"

definition and_keyUp :: "Key \<Rightarrow> bool \<times> world \<Rightarrow> bool \<times> world" where
  "and_keyUp key acc =
    (case acc of (ok, s) \<Rightarrow> case keyUp key s of (r, s') \<Rightarrow> (ok \<and> r, s'))"

definition holdModifier :: "Modifier \<Rightarrow> world \<Rightarrow> bool \<times> world" where
  "holdModifier mods s =
    (let acc = (True, s);
         acc = (if hasModifier mods Modifier_Shift
                then and_keyDown (ModKey Key_ShiftLeft) acc else acc);
         acc = (if hasModifier mods Modifier_Ctrl
                then and_keyDown (ModKey Key_CtrlLeft) acc else acc);
         acc = (if hasModifier mods Modifier_Alt
                then and_keyDown (ModKey Key_AltLeft) acc else acc);
         acc = (if hasModifier mods Modifier_Super
                then and_keyDown (ModKey Key_SuperLeft) acc else acc)
     in acc)"

definition releaseModifier :: "Modifier \<Rightarrow> world \<Rightarrow> bool \<times> world" where
  "releaseModifier mods s =
    (let acc = (True, s);
         acc = (if hasModifier mods Modifier_Shift
                then and_keyUp (ModKey Key_ShiftLeft) acc else acc);
         acc = (if hasModifier mods Modifier_Ctrl
                then and_keyUp (ModKey Key_CtrlLeft) acc else acc);
         acc = (if hasModifier mods Modifier_Alt
                then and_keyUp (ModKey Key_AltLeft) acc else acc);
         acc = (if hasModifier mods Modifier_Super
                then and_keyUp (ModKey Key_SuperLeft) acc else acc)
     in acc)"

definition releaseAllModifiers :: "world \<Rightarrow> bool \<times> world" where
  "releaseAllModifiers s =
    releaseModifier (Modifier_Shift OR Modifier_Ctrl OR Modifier_Alt OR Modifier_Super) s"

definition combo :: "Modifier \<Rightarrow> Key \<Rightarrow> world \<Rightarrow> (bool \<times> world) option" where
  "combo mods key s =
    (case holdModifier mods s of
       (hold_ok, s1) \<Rightarrow>
         if \<not> hold_ok then Some (False, s1)
         else
           (case m_impl_delay s1 of
              None \<Rightarrow> None
            | Some s2 \<Rightarrow>
                (case tap key s2 of
                   None \<Rightarrow> None
                 | Some (ok, s3) \<Rightarrow>
                     (case m_impl_delay s3 of
                        None \<Rightarrow> None
                      | Some s4 \<Rightarrow>
                          (case releaseModifier mods s4 of
                             (released, s5) \<Rightarrow> Some (ok, s5))))))"

definition typeText_u32 :: "32 word list \<Rightarrow> world \<Rightarrow> bool \<times> world" where
  "typeText_u32 text s = (False, s)"

definition typeText :: "string \<Rightarrow> world \<Rightarrow> bool \<times> world" where
  "typeText utf8Text s = (False, s)"

definition typeCharacter :: "32 word \<Rightarrow> world \<Rightarrow> bool \<times> world" where
  "typeCharacter codepoint s = (False, s)"

definition flush :: "world \<Rightarrow> world" where
  "flush s =
    (case m_impl s of
       None \<Rightarrow> s
     | Some this \<Rightarrow> \<lparr>m_impl = Some this, os = sync this (os s)\<rparr>)"

definition setKeyDelay :: "32 word \<Rightarrow> world \<Rightarrow> world" where
  "setKeyDelay delayUs s =
    (case m_impl s of
       None \<Rightarrow> s
     | Some this \<Rightarrow> \<lparr>m_impl = Some (this\<lparr>keyDelayUs := delayUs\<rparr>), os = os s\<rparr>)"

section \<open>Vocabulary for the properties\<close>

text \<open>
  The modifier bit that a key stands for: Shift, Ctrl, Alt and Super for the left and
  right variants of those keys, no bit for any other key.
\<close>

fun modifierOf :: "ModifierKey \<Rightarrow> Modifier" where
  "modifierOf Key_ShiftLeft = Modifier_Shift"
| "modifierOf Key_ShiftRight = Modifier_Shift"
| "modifierOf Key_CtrlLeft = Modifier_Ctrl"
| "modifierOf Key_CtrlRight = Modifier_Ctrl"
| "modifierOf Key_AltLeft = Modifier_Alt"
| "modifierOf Key_AltRight = Modifier_Alt"
| "modifierOf Key_SuperLeft = Modifier_Super"
| "modifierOf Key_SuperRight = Modifier_Super"
| "modifierOf Key_CapsLock = Modifier_None"
| "modifierOf Key_NumLock = Modifier_None"

fun keyModifier :: "Key \<Rightarrow> Modifier" where
  "keyModifier (ModKey k) = modifierOf k"
| "keyModifier key = Modifier_None"

text \<open>
  \<open>sendable s key\<close>: the Sender has a valid descriptor and a non-negative code for the key.
\<close>

definition sendable :: "world \<Rightarrow> Key \<Rightarrow> bool" where
  "sendable s key =
    (case m_impl s of
       None \<Rightarrow> False
     | Some this \<Rightarrow> fd this \<ge> 0 \<and> linuxKeyCodeFor this key \<ge> 0)"

text \<open>
  A system on which \<open>/dev/uinput\<close> cannot be opened, the Sender that the constructor
  builds there, and a Sender with the descriptor 3 and the constructor's key table.
\<close>

definition uinput_denied :: os where
  "uinput_denied = \<lparr>events = [], open_ret = - 1, write_ret = (\<lambda>n. 24)\<rparr>"

definition unready_sender :: world where
  "unready_sender =
    \<lparr>m_impl = Some \<lparr>fd = - 1, currentMods = Modifier_None, keyDelayUs = 1000,
                     keyMap = Map.empty\<rparr>,
     os = \<lparr>events = [Open ''/dev/uinput''], open_ret = - 1, write_ret = (\<lambda>n. 24)\<rparr>\<rparr>"

definition ready_sender :: world where
  "ready_sender =
    \<lparr>m_impl = Some \<lparr>fd = 3, currentMods = Modifier_None, keyDelayUs = 1000,
                     keyMap = map_of initKeyMap_entries\<rparr>,
     os = \<lparr>events = [], open_ret = 3, write_ret = (\<lambda>n. 24)\<rparr>\<rparr>"

text \<open>
  A ready Sender that holds Shift, on a system where every \<open>write\<close> fails.
\<close>

definition shift_held_write_fails :: world where
  "shift_held_write_fails =
    \<lparr>m_impl = Some \<lparr>fd = 3, currentMods = Modifier_Shift, keyDelayUs = 1000,
                     keyMap = map_of initKeyMap_entries\<rparr>,
     os = \<lparr>events = [], open_ret = 3, write_ret = (\<lambda>n. - 1)\<rparr>\<rparr>"

text \<open>
  The calls that a client can make on a Sender, and their effect on the state. The
  \<open>const\<close> member functions (\<open>type\<close>, \<open>capabilities\<close>, \<open>isReady\<close>, \<open>activeModifiers\<close>)
  leave the state as it is and are not listed. A run of calls ends with \<open>None\<close> when a
  call dereferences a null \<open>m_impl\<close>.
\<close>

datatype SenderCall =
    Call_requestPermissions
  | Call_keyDown Key
  | Call_keyUp Key
  | Call_tap Key
  | Call_holdModifier Modifier
  | Call_releaseModifier Modifier
  | Call_releaseAllModifiers
  | Call_combo Modifier Key
  | Call_typeText_u32 "32 word list"
  | Call_typeText string
  | Call_typeCharacter "32 word"
  | Call_flush
  | Call_setKeyDelay "32 word"

fun perform :: "SenderCall \<Rightarrow> world \<Rightarrow> world option" where
  "perform Call_requestPermissions s = Some (snd (requestPermissions s))"
| "perform (Call_keyDown key) s = Some (snd (keyDown key s))"
| "perform (Call_keyUp key) s = Some (snd (keyUp key s))"
| "perform (Call_tap key) s = map_option snd (tap key s)"
| "perform (Call_holdModifier mods) s = Some (snd (holdModifier mods s))"
| "perform (Call_releaseModifier mods) s = Some (snd (releaseModifier mods s))"
| "perform Call_releaseAllModifiers s = Some (snd (releaseAllModifiers s))"
| "perform (Call_combo mods key) s = map_option snd (combo mods key s)"
| "perform (Call_typeText_u32 text) s = Some (snd (typeText_u32 text s))"
| "perform (Call_typeText utf8Text) s = Some (snd (typeText utf8Text s))"
| "perform (Call_typeCharacter codepoint) s = Some (snd (typeCharacter codepoint s))"
| "perform Call_flush s = Some (flush s)"
| "perform (Call_setKeyDelay delayUs) s = Some (setKeyDelay delayUs s)"

fun perform_all :: "SenderCall list \<Rightarrow> world \<Rightarrow> world option" where
  "perform_all [] s = Some s"
| "perform_all (c # cs) s =
    (case perform c s of None \<Rightarrow> None | Some s' \<Rightarrow> perform_all cs s')"

text \<open>
  \<open>only_tracked_bits s\<close>: no bit other than Shift, Ctrl, Alt and Super is set in
  \<open>activeModifiers()\<close>.
\<close>

definition only_tracked_bits :: "world \<Rightarrow> bool" where
  "only_tracked_bits s =
    (activeModifiers s AND NOT (Modifier_Shift OR Modifier_Ctrl OR Modifier_Alt OR Modifier_Super)
       = 0)"

text \<open>
  \<open>constructed_ready s\<close>: the Sender is as the constructor leaves it after a successful
  \<open>open\<close>: a valid descriptor and the key table of \<open>initKeyMap\<close>. No operation of the
  Sender changes either.
\<close>

definition constructed_ready :: "world \<Rightarrow> bool" where
  "constructed_ready s =
    (case m_impl s of
       None \<Rightarrow> False
     | Some this \<Rightarrow> fd this \<ge> 0 \<and> keyMap this = map_of initKeyMap_entries)"


section \<open>Key names\<close>

text \<open>
  Modelled from the spec: \<open>keyToString\<close> and \<open>stringToKey\<close> are defined in the core
  source of the library, which is not among the sources; only their callers are. The
  spec gives a canonical name for every key, compared without regard to case, accepted
  aliases ("esc", "space"), \<open>Unknown\<close> for a name that matches nothing, and the name
  "Unknown" for \<open>Unknown\<close>. The canonical name of a key is taken to be the identifier of
  its enumerator, which agrees with the names the spec and the examples mention
  ("A", "Enter", "F1", "Unknown").
\<close>

fun letterName :: "LetterKey \<Rightarrow> string" where
  "letterName Key_A = ''A''"
| "letterName Key_B = ''B''"
| "letterName Key_C = ''C''"
| "letterName Key_D = ''D''"
| "letterName Key_E = ''E''"
| "letterName Key_F = ''F''"
| "letterName Key_G = ''G''"
| "letterName Key_H = ''H''"
| "letterName Key_I = ''I''"
| "letterName Key_J = ''J''"
| "letterName Key_K = ''K''"
| "letterName Key_L = ''L''"
| "letterName Key_M = ''M''"
| "letterName Key_N = ''N''"
| "letterName Key_O = ''O''"
| "letterName Key_P = ''P''"
| "letterName Key_Q = ''Q''"
| "letterName Key_R = ''R''"
| "letterName Key_S = ''S''"
| "letterName Key_T = ''T''"
| "letterName Key_U = ''U''"
| "letterName Key_V = ''V''"
| "letterName Key_W = ''W''"
| "letterName Key_X = ''X''"
| "letterName Key_Y = ''Y''"
| "letterName Key_Z = ''Z''"

fun numberName :: "NumberKey \<Rightarrow> string" where
  "numberName Key_Num0 = ''Num0''"
| "numberName Key_Num1 = ''Num1''"
| "numberName Key_Num2 = ''Num2''"
| "numberName Key_Num3 = ''Num3''"
| "numberName Key_Num4 = ''Num4''"
| "numberName Key_Num5 = ''Num5''"
| "numberName Key_Num6 = ''Num6''"
| "numberName Key_Num7 = ''Num7''"
| "numberName Key_Num8 = ''Num8''"
| "numberName Key_Num9 = ''Num9''"

fun functionName :: "FunctionKey \<Rightarrow> string" where
  "functionName Key_F1 = ''F1''"
| "functionName Key_F2 = ''F2''"
| "functionName Key_F3 = ''F3''"
| "functionName Key_F4 = ''F4''"
| "functionName Key_F5 = ''F5''"
| "functionName Key_F6 = ''F6''"
| "functionName Key_F7 = ''F7''"
| "functionName Key_F8 = ''F8''"
| "functionName Key_F9 = ''F9''"
| "functionName Key_F10 = ''F10''"
| "functionName Key_F11 = ''F11''"
| "functionName Key_F12 = ''F12''"
| "functionName Key_F13 = ''F13''"
| "functionName Key_F14 = ''F14''"
| "functionName Key_F15 = ''F15''"
| "functionName Key_F16 = ''F16''"
| "functionName Key_F17 = ''F17''"
| "functionName Key_F18 = ''F18''"
| "functionName Key_F19 = ''F19''"
| "functionName Key_F20 = ''F20''"

fun controlName :: "ControlKey \<Rightarrow> string" where
  "controlName Key_Enter = ''Enter''"
| "controlName Key_Escape = ''Escape''"
| "controlName Key_Backspace = ''Backspace''"
| "controlName Key_Tab = ''Tab''"
| "controlName Key_Space = ''Space''"

fun navigationName :: "NavigationKey \<Rightarrow> string" where
  "navigationName Key_Left = ''Left''"
| "navigationName Key_Right = ''Right''"
| "navigationName Key_Up = ''Up''"
| "navigationName Key_Down = ''Down''"
| "navigationName Key_Home = ''Home''"
| "navigationName Key_End = ''End''"
| "navigationName Key_PageUp = ''PageUp''"
| "navigationName Key_PageDown = ''PageDown''"
| "navigationName Key_Delete = ''Delete''"
| "navigationName Key_Insert = ''Insert''"

fun numpadName :: "NumpadKey \<Rightarrow> string" where
  "numpadName Key_Numpad0 = ''Numpad0''"
| "numpadName Key_Numpad1 = ''Numpad1''"
| "numpadName Key_Numpad2 = ''Numpad2''"
| "numpadName Key_Numpad3 = ''Numpad3''"
| "numpadName Key_Numpad4 = ''Numpad4''"
| "numpadName Key_Numpad5 = ''Numpad5''"
| "numpadName Key_Numpad6 = ''Numpad6''"
| "numpadName Key_Numpad7 = ''Numpad7''"
| "numpadName Key_Numpad8 = ''Numpad8''"
| "numpadName Key_Numpad9 = ''Numpad9''"
| "numpadName Key_NumpadDivide = ''NumpadDivide''"
| "numpadName Key_NumpadMultiply = ''NumpadMultiply''"
| "numpadName Key_NumpadMinus = ''NumpadMinus''"
| "numpadName Key_NumpadPlus = ''NumpadPlus''"
| "numpadName Key_NumpadEnter = ''NumpadEnter''"
| "numpadName Key_NumpadDecimal = ''NumpadDecimal''"

fun modifierName :: "ModifierKey \<Rightarrow> string" where
  "modifierName Key_ShiftLeft = ''ShiftLeft''"
| "modifierName Key_ShiftRight = ''ShiftRight''"
| "modifierName Key_CtrlLeft = ''CtrlLeft''"
| "modifierName Key_CtrlRight = ''CtrlRight''"
| "modifierName Key_AltLeft = ''AltLeft''"
| "modifierName Key_AltRight = ''AltRight''"
| "modifierName Key_SuperLeft = ''SuperLeft''"
| "modifierName Key_SuperRight = ''SuperRight''"
| "modifierName Key_CapsLock = ''CapsLock''"
| "modifierName Key_NumLock = ''NumLock''"

fun miscName :: "MiscKey \<Rightarrow> string" where
  "miscName Key_Menu = ''Menu''"
| "miscName Key_Mute = ''Mute''"
| "miscName Key_VolumeDown = ''VolumeDown''"
| "miscName Key_VolumeUp = ''VolumeUp''"
| "miscName Key_MediaPlayPause = ''MediaPlayPause''"
| "miscName Key_MediaStop = ''MediaStop''"
| "miscName Key_MediaNext = ''MediaNext''"
| "miscName Key_MediaPrevious = ''MediaPrevious''"

fun punctuationName :: "PunctuationKey \<Rightarrow> string" where
  "punctuationName Key_Grave = ''Grave''"
| "punctuationName Key_Minus = ''Minus''"
| "punctuationName Key_Equal = ''Equal''"
| "punctuationName Key_LeftBracket = ''LeftBracket''"
| "punctuationName Key_RightBracket = ''RightBracket''"
| "punctuationName Key_Backslash = ''Backslash''"
| "punctuationName Key_Semicolon = ''Semicolon''"
| "punctuationName Key_Apostrophe = ''Apostrophe''"
| "punctuationName Key_Comma = ''Comma''"
| "punctuationName Key_Period = ''Period''"
| "punctuationName Key_Slash = ''Slash''"

fun keyToString :: "Key \<Rightarrow> string" where
  "keyToString Key_Unknown = ''Unknown''"
| "keyToString (Letter k) = letterName k"
| "keyToString (Number k) = numberName k"
| "keyToString (Function k) = functionName k"
| "keyToString (Control k) = controlName k"
| "keyToString (Navigation k) = navigationName k"
| "keyToString (Numpad k) = numpadName k"
| "keyToString (ModKey k) = modifierName k"
| "keyToString (Misc k) = miscName k"
| "keyToString (Punctuation k) = punctuationName k"
definition all_keys :: "Key list" where
  "all_keys =
    [Key_Unknown]
    @ map Letter
        [Key_A, Key_B, Key_C, Key_D, Key_E, Key_F, Key_G, Key_H, Key_I, Key_J, Key_K, Key_L,
        Key_M, Key_N, Key_O, Key_P, Key_Q, Key_R, Key_S, Key_T, Key_U, Key_V, Key_W, Key_X,
        Key_Y, Key_Z]
    @ map Number
        [Key_Num0, Key_Num1, Key_Num2, Key_Num3, Key_Num4, Key_Num5, Key_Num6, Key_Num7,
        Key_Num8, Key_Num9]
    @ map Function
        [Key_F1, Key_F2, Key_F3, Key_F4, Key_F5, Key_F6, Key_F7, Key_F8, Key_F9, Key_F10,
        Key_F11, Key_F12, Key_F13, Key_F14, Key_F15, Key_F16, Key_F17, Key_F18, Key_F19,
        Key_F20]
    @ map Control
        [Key_Enter, Key_Escape, Key_Backspace, Key_Tab, Key_Space]
    @ map Navigation
        [Key_Left, Key_Right, Key_Up, Key_Down, Key_Home, Key_End, Key_PageUp, Key_PageDown,
        Key_Delete, Key_Insert]
    @ map Numpad
        [Key_Numpad0, Key_Numpad1, Key_Numpad2, Key_Numpad3, Key_Numpad4, Key_Numpad5,
        Key_Numpad6, Key_Numpad7, Key_Numpad8, Key_Numpad9, Key_NumpadDivide,
        Key_NumpadMultiply, Key_NumpadMinus, Key_NumpadPlus, Key_NumpadEnter,
        Key_NumpadDecimal]
    @ map ModKey
        [Key_ShiftLeft, Key_ShiftRight, Key_CtrlLeft, Key_CtrlRight, Key_AltLeft,
        Key_AltRight, Key_SuperLeft, Key_SuperRight, Key_CapsLock, Key_NumLock]
    @ map Misc
        [Key_Menu, Key_Mute, Key_VolumeDown, Key_VolumeUp, Key_MediaPlayPause,
        Key_MediaStop, Key_MediaNext, Key_MediaPrevious]
    @ map Punctuation
        [Key_Grave, Key_Minus, Key_Equal, Key_LeftBracket, Key_RightBracket, Key_Backslash,
        Key_Semicolon, Key_Apostrophe, Key_Comma, Key_Period, Key_Slash]"

definition key_aliases :: "(string \<times> Key) list" where
  "key_aliases = [(''esc'', Control Key_Escape), (''space'', Control Key_Space)]"

definition to_lower :: "char \<Rightarrow> char" where
  "to_lower c =
    (case map_of (zip ''ABCDEFGHIJKLMNOPQRSTUVWXYZ'' ''abcdefghijklmnopqrstuvwxyz'') c of
       None \<Rightarrow> c
     | Some l \<Rightarrow> l)"

definition stringToKey :: "string \<Rightarrow> Key" where
  "stringToKey input =
    (let lowered = map to_lower input
     in case find (\<lambda>key. map to_lower (keyToString key) = lowered) all_keys of
          Some key \<Rightarrow> key
        | None \<Rightarrow>
            (case map_of key_aliases lowered of
               Some key \<Rightarrow> key
             | None \<Rightarrow> Key_Unknown))"

section \<open>The C API boundary\<close>

text \<open>
  Modelled from the spec: the functions of \<open>c_api.h\<close> are defined in a source file that is
  not among the sources; only the header and its test are. The spec describes them as
  wrappers of Sender and Listener behind opaque handles that fail fast on a null
  argument: they return false, perform no OS interaction and write into the process-wide
  last-error slot a description that names the argument. A call that fails for another
  reason writes a description as well. The process holds one Sender and one Listener; a
  handle is \<open>NULL\<close> or refers to that instance. A key is passed as the \<open>Key\<close> it
  corresponds to. Of the Listener the model keeps the running flag, and whether the
  operating system grants the hook. The calls modelled are the functions of \<open>c_api.h\<close>
  that carry out an operation and report its success as a \<open>bool\<close>.
\<close>

datatype handle = NULL | Instance

record process =
  sender :: "Impl option"
  listening :: bool
  hook_granted :: bool
  sys :: os
  last_error :: "string option"

datatype capi_call =
    typr_io_sender_key_down handle Key
  | typr_io_sender_key_up handle Key
  | typr_io_sender_tap handle Key
  | typr_io_sender_hold_modifier handle Modifier
  | typr_io_sender_release_modifier handle Modifier
  | typr_io_sender_release_all_modifiers handle
  | typr_io_sender_combo handle Modifier Key
  | typr_io_sender_type_text_utf8 handle "string option"
  | typr_io_sender_type_character handle "32 word"
  | typr_io_listener_start handle "nat option"

fun capi_name :: "capi_call \<Rightarrow> string" where
  "capi_name (typr_io_sender_key_down h key) = ''typr_io_sender_key_down''"
| "capi_name (typr_io_sender_key_up h key) = ''typr_io_sender_key_up''"
| "capi_name (typr_io_sender_tap h key) = ''typr_io_sender_tap''"
| "capi_name (typr_io_sender_hold_modifier h mods) = ''typr_io_sender_hold_modifier''"
| "capi_name (typr_io_sender_release_modifier h mods) = ''typr_io_sender_release_modifier''"
| "capi_name (typr_io_sender_release_all_modifiers h) =
     ''typr_io_sender_release_all_modifiers''"
| "capi_name (typr_io_sender_combo h mods key) = ''typr_io_sender_combo''"
| "capi_name (typr_io_sender_type_text_utf8 h utf8_text) = ''typr_io_sender_type_text_utf8''"
| "capi_name (typr_io_sender_type_character h codepoint) = ''typr_io_sender_type_character''"
| "capi_name (typr_io_listener_start h cb) = ''typr_io_listener_start''"

text \<open>The name of the first argument of a call that is null, if there is one.\<close>

fun null_handle :: "string \<Rightarrow> handle \<Rightarrow> string option" where
  "null_handle arg NULL = Some arg"
| "null_handle arg Instance = None"

fun invalid_argument :: "capi_call \<Rightarrow> string option" where
  "invalid_argument (typr_io_sender_key_down h key) = null_handle ''sender'' h"
| "invalid_argument (typr_io_sender_key_up h key) = null_handle ''sender'' h"
| "invalid_argument (typr_io_sender_tap h key) = null_handle ''sender'' h"
| "invalid_argument (typr_io_sender_hold_modifier h mods) = null_handle ''sender'' h"
| "invalid_argument (typr_io_sender_release_modifier h mods) = null_handle ''sender'' h"
| "invalid_argument (typr_io_sender_release_all_modifiers h) = null_handle ''sender'' h"
| "invalid_argument (typr_io_sender_combo h mods key) = null_handle ''sender'' h"
| "invalid_argument (typr_io_sender_type_text_utf8 h utf8_text) =
     (case null_handle ''sender'' h of
        Some arg \<Rightarrow> Some arg
      | None \<Rightarrow> (case utf8_text of None \<Rightarrow> Some ''utf8_text'' | Some text \<Rightarrow> None))"
| "invalid_argument (typr_io_sender_type_character h codepoint) = null_handle ''sender'' h"
| "invalid_argument (typr_io_listener_start h cb) =
     (case null_handle ''listener'' h of
        Some arg \<Rightarrow> Some arg
      | None \<Rightarrow> (case cb of None \<Rightarrow> Some ''callback'' | Some f \<Rightarrow> None))"

definition set_last_error :: "string \<Rightarrow> process \<Rightarrow> process" where
  "set_last_error msg p = p\<lparr>last_error := Some msg\<rparr>"

definition typr_io_get_last_error :: "process \<Rightarrow> string option" where
  "typr_io_get_last_error p = last_error p"

definition typr_io_clear_last_error :: "process \<Rightarrow> process" where
  "typr_io_clear_last_error p = p\<lparr>last_error := None\<rparr>"

text \<open>
  A call with valid arguments runs the wrapped operation on the process's Sender, or
  installs the Listener's hook.
\<close>

definition on_sender ::
  "(world \<Rightarrow> (bool \<times> world) option) \<Rightarrow> process \<Rightarrow> (bool \<times> process) option" where
  "on_sender f p =
    (case f \<lparr>m_impl = sender p, os = sys p\<rparr> of
       None \<Rightarrow> None
     | Some (ok, s) \<Rightarrow> Some (ok, p\<lparr>sender := m_impl s, sys := os s\<rparr>))"

fun wrapped :: "capi_call \<Rightarrow> process \<Rightarrow> (bool \<times> process) option" where
  "wrapped (typr_io_sender_key_down h key) p = on_sender (\<lambda>s. Some (keyDown key s)) p"
| "wrapped (typr_io_sender_key_up h key) p = on_sender (\<lambda>s. Some (keyUp key s)) p"
| "wrapped (typr_io_sender_tap h key) p = on_sender (tap key) p"
| "wrapped (typr_io_sender_hold_modifier h mods) p =
     on_sender (\<lambda>s. Some (holdModifier mods s)) p"
| "wrapped (typr_io_sender_release_modifier h mods) p =
     on_sender (\<lambda>s. Some (releaseModifier mods s)) p"
| "wrapped (typr_io_sender_release_all_modifiers h) p =
     on_sender (\<lambda>s. Some (releaseAllModifiers s)) p"
| "wrapped (typr_io_sender_combo h mods key) p = on_sender (combo mods key) p"
| "wrapped (typr_io_sender_type_text_utf8 h utf8_text) p =
     on_sender (\<lambda>s. Some (typeText (case utf8_text of None \<Rightarrow> [] | Some text \<Rightarrow> text) s)) p"
| "wrapped (typr_io_sender_type_character h codepoint) p =
     on_sender (\<lambda>s. Some (typeCharacter codepoint s)) p"
| "wrapped (typr_io_listener_start h cb) p =
     Some (if listening p then (True, p)
           else if hook_granted p then (True, p\<lparr>listening := True\<rparr>)
           else (False, p))"

definition capi :: "capi_call \<Rightarrow> process \<Rightarrow> (bool \<times> process) option" where
  "capi c p =
    (case invalid_argument c of
       Some arg \<Rightarrow> Some (False, set_last_error (capi_name c @ '': '' @ arg @ '' is NULL'') p)
     | None \<Rightarrow>
         (case wrapped c p of
            None \<Rightarrow> None
          | Some (ok, p') \<Rightarrow>
              Some (ok, if ok then p' else set_last_error (capi_name c @ '' failed'') p')))"

text \<open>
  A process with a ready Sender, an idle Listener, an empty log of system calls, and an
  earlier error still in the last-error slot.
\<close>

definition example_process :: process where
  "example_process =
    \<lparr>sender = m_impl ready_sender, listening = False, hook_granted = True,
     sys = os ready_sender, last_error = Some ''earlier error''\<rparr>"

section \<open>Properties\<close>

subsection \<open>What a key event does\<close>

lemma sendKey_result:
  "fst (sendKey this key down w) = (fd this \<ge> 0 \<and> linuxKeyCodeFor this key \<ge> 0)"
  by (simp add: sendKey_def Let_def)

lemma sendKey_fail_os:
  "\<not> (fd this \<ge> 0 \<and> linuxKeyCodeFor this key \<ge> 0) \<Longrightarrow> snd (sendKey this key down w) = w"
  by (auto simp add: sendKey_def Let_def)

lemma sendKey_mods_irrelevant:
  "sendKey (this\<lparr>currentMods := m\<rparr>) key down w = sendKey this key down w"
  by (simp add: sendKey_def Let_def linuxKeyCodeFor_def emit_def sync_def)

lemma keyDown_None: "m_impl s = None \<Longrightarrow> keyDown key s = (False, s)"
  by (simp add: keyDown_def)

lemma keyUp_None: "m_impl s = None \<Longrightarrow> keyUp key s = (False, s)"
  by (simp add: keyUp_def)

lemma keyModifier_switch:
  "keyModifier key =
    (if key = ModKey Key_ShiftLeft \<or> key = ModKey Key_ShiftRight then Modifier_Shift
     else if key = ModKey Key_CtrlLeft \<or> key = ModKey Key_CtrlRight then Modifier_Ctrl
     else if key = ModKey Key_AltLeft \<or> key = ModKey Key_AltRight then Modifier_Alt
     else if key = ModKey Key_SuperLeft \<or> key = ModKey Key_SuperRight then Modifier_Super
     else Modifier_None)"
proof (cases key)
  case (ModKey k)
  then show ?thesis by (cases k) simp_all
qed simp_all

lemma keyDown_Some:
  "m_impl s = Some this \<Longrightarrow>
   keyDown key s =
     (fst (sendKey this key True (os s)),
      \<lparr>m_impl = Some (this\<lparr>currentMods := currentMods this OR keyModifier key\<rparr>),
       os = snd (sendKey this key True (os s))\<rparr>)"
  by (simp add: keyDown_def keyModifier_switch Let_def split_beta sendKey_mods_irrelevant
      Modifier_None_def)

lemma keyUp_Some:
  "m_impl s = Some this \<Longrightarrow>
   keyUp key s =
     (fst (sendKey this key False (os s)),
      \<lparr>m_impl = Some (this\<lparr>currentMods := currentMods this AND NOT (keyModifier key)\<rparr>),
       os = snd (sendKey this key False (os s))\<rparr>)"
  by (simp add: keyUp_def keyModifier_switch Let_def split_beta Modifier_None_def)

lemma keyDown_result: "fst (keyDown key s) = sendable s key"
  by (cases "m_impl s") (simp_all add: keyDown_None keyDown_Some sendable_def sendKey_result)

lemma keyUp_result: "fst (keyUp key s) = sendable s key"
  by (cases "m_impl s") (simp_all add: keyUp_None keyUp_Some sendable_def sendKey_result)

lemma keyDown_fail_os: "\<not> sendable s key \<Longrightarrow> os (snd (keyDown key s)) = os s"
  by (cases "m_impl s") (simp_all add: keyDown_None keyDown_Some sendable_def sendKey_fail_os)

lemma keyUp_fail_os: "\<not> sendable s key \<Longrightarrow> os (snd (keyUp key s)) = os s"
  by (cases "m_impl s") (simp_all add: keyUp_None keyUp_Some sendable_def sendKey_fail_os)

lemma keyDown_mods:
  "activeModifiers (snd (keyDown key s)) =
     (if m_impl s = None then Modifier_None else activeModifiers s OR keyModifier key)"
  by (cases "m_impl s") (simp_all add: keyDown_None keyDown_Some activeModifiers_def)

lemma keyUp_mods:
  "activeModifiers (snd (keyUp key s)) = activeModifiers s AND NOT (keyModifier key)"
  by (cases "m_impl s")
    (simp_all add: keyUp_None keyUp_Some activeModifiers_def Modifier_None_def)

lemma keyDown_m_impl_None: "(m_impl (snd (keyDown key s)) = None) = (m_impl s = None)"
  by (cases "m_impl s") (simp_all add: keyDown_None keyDown_Some)

lemma Impl_ctor_fd: "fd (fst (Impl_ctor w)) = open_ret w"
  by (simp add: Impl_ctor_def Let_def syscall_def initKeyMap_def)

lemma Sender_ctor_m_impl: "m_impl (Sender_ctor w) = Some (fst (Impl_ctor w))"
  by (simp add: Sender_ctor_def split_beta)

subsection \<open>Readiness and capabilities\<close>

text \<open>
  Claim C8. \<open>isReady()\<close> is true exactly when the Sender has an \<open>Impl\<close> whose descriptor is
  valid (\<open>fd \<ge> 0\<close>); \<open>capabilities().canInjectKeys\<close> equals \<open>isReady()\<close>;
  \<open>needsUinputAccess\<close> is always reported. The constructor always yields a Sender (it
  cannot throw), whose descriptor is what \<open>open\<close> returned; when \<open>open\<close> fails the Sender
  is not ready and reports \<open>needsUinputAccess\<close>.
\<close>

theorem isReady_iff_fd_valid:
  "(isReady s \<longleftrightarrow> (\<exists>this. m_impl s = Some this \<and> fd this \<ge> 0))
   \<and> canInjectKeys (capabilities s) = isReady s
   \<and> needsUinputAccess (capabilities s)
   \<and> (\<exists>this. m_impl (Sender_ctor w) = Some this \<and> fd this = open_ret w)
   \<and> (open_ret w < 0 \<longrightarrow>
        \<not> isReady (Sender_ctor w) \<and> needsUinputAccess (capabilities (Sender_ctor w)))"
proof -
  have "isReady s \<longleftrightarrow> (\<exists>this. m_impl s = Some this \<and> fd this \<ge> 0)"
    by (cases "m_impl s") (simp_all add: isReady_def)
  moreover have "canInjectKeys (capabilities s) = isReady s"
    by (simp add: capabilities_def isReady_def)
  moreover have caps: "needsUinputAccess (capabilities s')" for s'
    by (simp add: capabilities_def)
  moreover have "\<exists>this. m_impl (Sender_ctor w) = Some this \<and> fd this = open_ret w"
    by (simp add: Sender_ctor_m_impl Impl_ctor_fd)
  moreover have "open_ret w < 0 \<longrightarrow> \<not> isReady (Sender_ctor w)"
    by (simp add: isReady_def Sender_ctor_m_impl Impl_ctor_fd)
  ultimately show ?thesis by blast
qed

theorem isReady_iff_fd_valid_witness:
  "open_ret uinput_denied < 0
   \<and> Sender_ctor uinput_denied = unready_sender
   \<and> \<not> isReady unready_sender
   \<and> needsUinputAccess (capabilities unready_sender)"
proof -
  have ctor: "Sender_ctor uinput_denied = unready_sender"
    by (simp add: Sender_ctor_def Impl_ctor_def syscall_def unready_sender_def
        uinput_denied_def)
  have neg: "open_ret uinput_denied < 0"
    by (simp add: uinput_denied_def)
  from isReady_iff_fd_valid [of unready_sender uinput_denied]
  have "open_ret uinput_denied < 0 \<longrightarrow>
        \<not> isReady (Sender_ctor uinput_denied)
        \<and> needsUinputAccess (capabilities (Sender_ctor uinput_denied))"
    by blast
  with neg ctor show ?thesis by simp
qed

subsection \<open>Text injection\<close>

text \<open>
  Claim C5. On the uinput backend both overloads of \<open>typeText\<close> and \<open>typeCharacter\<close>
  return false for every input and leave the Sender and the operating system (its log of
  system calls included) as they were; \<open>canInjectText\<close> is false.
\<close>

theorem typeText_unsupported:
  "typeText_u32 text s = (False, s)
   \<and> typeText utf8Text s = (False, s)
   \<and> typeCharacter codepoint s = (False, s)
   \<and> \<not> canInjectText (capabilities s)"
  by (simp add: typeText_u32_def typeText_def typeCharacter_def capabilities_def)

subsection \<open>tap\<close>

text \<open>
  Claim C4. \<open>tap(key)\<close> always returns. When \<open>keyDown(key)\<close> fails, \<open>tap\<close> returns false in
  the state \<open>keyDown\<close> left, with no system call made: no \<open>keyUp\<close> follows. When
  \<open>keyDown(key)\<close> succeeds, \<open>tap\<close> sleeps for the configured delay and returns what
  \<open>keyUp(key)\<close> returns; so \<open>tap\<close> is true only if both steps succeeded.
\<close>

theorem tap_down_delay_up:
  "keyDown key s = (down_ok, s1) \<Longrightarrow>
   (\<exists>r. tap key s = Some r)
   \<and> (\<not> down_ok \<longrightarrow> tap key s = Some (False, s1) \<and> os s1 = os s)
   \<and> (down_ok \<longrightarrow>
        (\<exists>s2. m_impl_delay s1 = Some s2 \<and> tap key s = Some (keyUp key s2)))
   \<and> (\<forall>s'. tap key s = Some (True, s') \<longrightarrow>
        down_ok \<and> (\<exists>s2. m_impl_delay s1 = Some s2 \<and> fst (keyUp key s2)))"
proof -
  assume kd: "keyDown key s = (down_ok, s1)"
  have fail: "\<not> down_ok \<Longrightarrow> tap key s = Some (False, s1) \<and> os s1 = os s"
    using kd keyDown_result [of key s] keyDown_fail_os [of s key]
    by (simp add: tap_def)
  have ok: "\<exists>s2. m_impl_delay s1 = Some s2 \<and> tap key s = Some (keyUp key s2)" if "down_ok"
  proof -
    from that kd keyDown_result [of key s] have "sendable s key" by simp
    then obtain this where "m_impl s = Some this"
      by (cases "m_impl s") (simp_all add: sendable_def)
    with kd keyDown_m_impl_None [of key s] obtain this1 where "m_impl s1 = Some this1"
      by (cases "m_impl s1") simp_all
    then show ?thesis using kd that by (simp add: tap_def m_impl_delay_def)
  qed
  from fail ok show ?thesis
    by (cases down_ok) (auto simp: prod_eq_iff)
qed

lemma keyMap_A: "map_of initKeyMap_entries (Letter Key_A) = Some 30"
  by (simp add: initKeyMap_entries_def)

theorem tap_down_delay_up_witness:
  "keyDown (Letter Key_A) unready_sender = (False, unready_sender)
   \<and> tap (Letter Key_A) unready_sender = Some (False, unready_sender)
   \<and> fst (keyDown (Letter Key_A) ready_sender)
   \<and> map_option (\<lambda>r. (fst r, events (os (snd r)))) (tap (Letter Key_A) ready_sender) =
       Some (True, [Write 3 1 30 1 24, Write 3 0 0 0 24, SleepUs 1000,
                    Write 3 1 30 0 24, Write 3 0 0 0 24])"
proof -
  have down_unready: "keyDown (Letter Key_A) unready_sender = (False, unready_sender)"
    by (simp add: keyDown_def unready_sender_def sendKey_def)
  have down_ready:
    "keyDown (Letter Key_A) ready_sender =
      (True, \<lparr>m_impl = m_impl ready_sender,
              os = \<lparr>events = [Write 3 1 30 1 24, Write 3 0 0 0 24], open_ret = 3,
                    write_ret = (\<lambda>n. 24)\<rparr>\<rparr>)"
    by (simp add: keyDown_def ready_sender_def sendKey_def linuxKeyCodeFor_def keyMap_A
        emit_def sync_def syscall_def EV_KEY_def EV_SYN_def SYN_REPORT_def)
  have up_ready:
    "keyUp (Letter Key_A)
       \<lparr>m_impl = m_impl ready_sender,
        os = \<lparr>events = [Write 3 1 30 1 24, Write 3 0 0 0 24, SleepUs 1000], open_ret = 3,
              write_ret = (\<lambda>n. 24)\<rparr>\<rparr> =
      (True, \<lparr>m_impl = m_impl ready_sender,
              os = \<lparr>events = [Write 3 1 30 1 24, Write 3 0 0 0 24, SleepUs 1000,
                              Write 3 1 30 0 24, Write 3 0 0 0 24], open_ret = 3,
                    write_ret = (\<lambda>n. 24)\<rparr>\<rparr>)"
    by (simp add: keyUp_def ready_sender_def sendKey_def linuxKeyCodeFor_def keyMap_A
        emit_def sync_def syscall_def EV_KEY_def EV_SYN_def SYN_REPORT_def)
  have delay_ready:
    "m_impl_delay \<lparr>m_impl = m_impl ready_sender,
              os = \<lparr>events = [Write 3 1 30 1 24, Write 3 0 0 0 24], open_ret = 3,
                    write_ret = (\<lambda>n. 24)\<rparr>\<rparr> =
     Some \<lparr>m_impl = m_impl ready_sender,
        os = \<lparr>events = [Write 3 1 30 1 24, Write 3 0 0 0 24, SleepUs 1000], open_ret = 3,
              write_ret = (\<lambda>n. 24)\<rparr>\<rparr>"
    by (simp add: m_impl_delay_def ready_sender_def delay_def syscall_def)
  from tap_down_delay_up [OF down_unready]
  have t1: "tap (Letter Key_A) unready_sender = Some (False, unready_sender)" by simp
  from tap_down_delay_up [OF down_ready] delay_ready up_ready
  have t2: "tap (Letter Key_A) ready_sender =
      Some (True, \<lparr>m_impl = m_impl ready_sender,
              os = \<lparr>events = [Write 3 1 30 1 24, Write 3 0 0 0 24, SleepUs 1000,
                              Write 3 1 30 0 24, Write 3 0 0 0 24], open_ret = 3,
                    write_ret = (\<lambda>n. 24)\<rparr>\<rparr>)" by simp
  show ?thesis by (simp add: down_unready down_ready t1 t2)
qed

subsection \<open>Key events on an unready Sender\<close>

lemma keyMap_modifiers:
  "map_of initKeyMap_entries (ModKey Key_ShiftLeft) = Some 42"
  "map_of initKeyMap_entries (ModKey Key_CtrlLeft) = Some 29"
  "map_of initKeyMap_entries (ModKey Key_AltLeft) = Some 56"
  "map_of initKeyMap_entries (ModKey Key_SuperLeft) = Some 125"
  "map_of initKeyMap_entries (ModKey Key_CapsLock) = Some 58"
  "map_of initKeyMap_entries (ModKey Key_NumLock) = Some 69"
  by (simp_all add: initKeyMap_entries_def)

lemma not_canInjectKeys: "(\<not> canInjectKeys (capabilities s)) = (\<not> isReady s)"
  by (simp add: capabilities_def isReady_def)

lemma not_ready_not_sendable: "\<not> isReady s \<Longrightarrow> \<not> sendable s key"
  by (cases "m_impl s") (simp_all add: isReady_def sendable_def)

lemma sendable_write_ret:
  "sendable \<lparr>m_impl = m_impl s, os = (os s)\<lparr>write_ret := f\<rparr>\<rparr> key = sendable s key"
  by (simp add: sendable_def)

lemma activeModifiers_None: "m_impl s = None \<Longrightarrow> activeModifiers s = Modifier_None"
  by (simp add: activeModifiers_def)

text \<open>
  Claim C1, as stated, fails: on the Sender that the constructor builds when
  \<open>/dev/uinput\<close> cannot be opened, \<open>keyDown(ShiftLeft)\<close> returns false and yet sets the
  Shift bit of \<open>activeModifiers()\<close>.
\<close>

theorem unready_keyDown_counterexample:
  "\<not> canInjectKeys (capabilities unready_sender)
   \<and> fst (keyDown (ModKey Key_ShiftLeft) unready_sender) = False
   \<and> activeModifiers unready_sender = 0
   \<and> activeModifiers (snd (keyDown (ModKey Key_ShiftLeft) unready_sender)) = 1
   \<and> hasModifier (activeModifiers (snd (keyDown (ModKey Key_ShiftLeft) unready_sender)))
        Modifier_Shift"
  by (simp add: capabilities_def unready_sender_def keyDown_def sendKey_def
      activeModifiers_def Modifier_None_def Modifier_Shift_def hasModifier_def)

text \<open>
  Claim C1, amended. On a Sender whose capabilities report \<open>canInjectKeys = false\<close>,
  \<open>keyDown\<close>, \<open>keyUp\<close> and \<open>tap\<close> return false and make no system call; \<open>tap\<close> stops
  after its \<open>keyDown\<close>. \<open>keyDown\<close> (and so \<open>tap\<close>) sets the modifier bit of the key unless
  the Sender has been moved from, and \<open>keyUp\<close> clears it; \<open>activeModifiers()\<close> is
  unchanged for every key that is not one of the eight Shift, Ctrl, Alt and Super keys.
\<close>

theorem unready_key_emission:
  "\<not> canInjectKeys (capabilities s) \<Longrightarrow>
   fst (keyDown key s) = False
   \<and> fst (keyUp key s) = False
   \<and> tap key s = Some (False, snd (keyDown key s))
   \<and> os (snd (keyDown key s)) = os s
   \<and> os (snd (keyUp key s)) = os s
   \<and> activeModifiers (snd (keyDown key s)) =
       (if m_impl s = None then Modifier_None else activeModifiers s OR keyModifier key)
   \<and> activeModifiers (snd (keyUp key s)) = activeModifiers s AND NOT (keyModifier key)
   \<and> (keyModifier key = Modifier_None \<longrightarrow>
        activeModifiers (snd (keyDown key s)) = activeModifiers s
        \<and> activeModifiers (snd (keyUp key s)) = activeModifiers s)"
proof -
  assume "\<not> canInjectKeys (capabilities s)"
  then have ns: "\<not> sendable s key"
    by (simp add: not_canInjectKeys not_ready_not_sendable)
  have down: "fst (keyDown key s) = False" and up: "fst (keyUp key s) = False"
    using ns by (simp_all add: keyDown_result keyUp_result)
  have tap: "tap key s = Some (False, snd (keyDown key s))"
    using down by (simp add: tap_def split_beta)
  have unchanged: "keyModifier key = Modifier_None \<longrightarrow>
        activeModifiers (snd (keyDown key s)) = activeModifiers s
        \<and> activeModifiers (snd (keyUp key s)) = activeModifiers s"
    by (cases "m_impl s")
      (simp_all add: keyDown_mods keyUp_mods Modifier_None_def activeModifiers_None)
  show ?thesis
    using down up tap unchanged keyDown_fail_os [OF ns] keyUp_fail_os [OF ns]
      keyDown_mods [of key s] keyUp_mods [of key s]
    by simp
qed

theorem unready_key_emission_witness:
  "\<not> canInjectKeys (capabilities unready_sender)
   \<and> tap (ModKey Key_ShiftLeft) unready_sender =
       Some (False, snd (keyDown (ModKey Key_ShiftLeft) unready_sender))
   \<and> os (snd (keyDown (ModKey Key_ShiftLeft) unready_sender)) = os unready_sender
   \<and> activeModifiers (snd (keyDown (ModKey Key_ShiftLeft) unready_sender)) = Modifier_Shift
   \<and> activeModifiers (snd (keyDown (Letter Key_A) unready_sender)) = Modifier_None"
proof -
  have h: "\<not> canInjectKeys (capabilities unready_sender)"
    by (simp add: capabilities_def unready_sender_def)
  have m: "m_impl unready_sender \<noteq> None"
    "activeModifiers unready_sender = Modifier_None"
    by (simp_all add: unready_sender_def activeModifiers_def)
  show ?thesis
    using h m unready_key_emission [OF h, of "ModKey Key_ShiftLeft"]
      unready_key_emission [OF h, of "Letter Key_A"]
    by (auto simp add: Modifier_None_def)
qed

subsection \<open>keyUp and the tracked bitmask\<close>

text \<open>
  Claim C9, as stated, fails: on a ready Sender whose \<open>write\<close> calls all fail (return
  \<open>-1\<close>), \<open>keyUp(ShiftLeft)\<close> returns true, not false.
\<close>

theorem keyUp_write_fails_counterexample:
  "fst (keyUp (ModKey Key_ShiftLeft) shift_held_write_fails) = True
   \<and> events (os (snd (keyUp (ModKey Key_ShiftLeft) shift_held_write_fails))) =
       [Write 3 1 42 0 (- 1), Write 3 0 0 0 (- 1)]"
  by (simp add: shift_held_write_fails_def keyUp_def sendKey_def linuxKeyCodeFor_def
      keyMap_modifiers emit_def sync_def syscall_def EV_KEY_def EV_SYN_def SYN_REPORT_def)

text \<open>
  Claim C9, amended. For each of the eight Shift, Ctrl, Alt and Super keys, \<open>keyUp\<close>
  clears the key's bit in \<open>activeModifiers()\<close> whatever the emission did. \<open>keyUp\<close>
  returns false on an unready Sender; in general it returns true exactly when the
  descriptor is valid and the key has a code, and neither its result nor the bitmask
  depends on what \<open>write\<close> returns.
\<close>

theorem keyUp_clears_modifier_bit:
  "k \<in> {Key_ShiftLeft, Key_ShiftRight, Key_CtrlLeft, Key_CtrlRight,
         Key_AltLeft, Key_AltRight, Key_SuperLeft, Key_SuperRight} \<Longrightarrow>
   modifierOf k \<in> {Modifier_Shift, Modifier_Ctrl, Modifier_Alt, Modifier_Super}
   \<and> activeModifiers (snd (keyUp (ModKey k) s)) = activeModifiers s AND NOT (modifierOf k)
   \<and> \<not> hasModifier (activeModifiers (snd (keyUp (ModKey k) s))) (modifierOf k)
   \<and> (\<not> isReady s \<longrightarrow> fst (keyUp (ModKey k) s) = False)
   \<and> fst (keyUp (ModKey k) s) = sendable s (ModKey k)
   \<and> fst (keyUp (ModKey k) \<lparr>m_impl = m_impl s, os = (os s)\<lparr>write_ret := f\<rparr>\<rparr>) =
       fst (keyUp (ModKey k) s)
   \<and> activeModifiers (snd (keyUp (ModKey k) \<lparr>m_impl = m_impl s, os = (os s)\<lparr>write_ret := f\<rparr>\<rparr>)) =
       activeModifiers (snd (keyUp (ModKey k) s))"
proof -
  assume k: "k \<in> {Key_ShiftLeft, Key_ShiftRight, Key_CtrlLeft, Key_CtrlRight,
         Key_AltLeft, Key_AltRight, Key_SuperLeft, Key_SuperRight}"
  then have bit: "modifierOf k \<in> {Modifier_Shift, Modifier_Ctrl, Modifier_Alt, Modifier_Super}"
    by auto
  have mods: "activeModifiers (snd (keyUp (ModKey k) s')) =
      activeModifiers s' AND NOT (modifierOf k)" for s'
    by (simp add: keyUp_mods)
  have cleared: "\<not> hasModifier (activeModifiers (snd (keyUp (ModKey k) s))) (modifierOf k)"
    by (simp add: mods hasModifier_def and.assoc)
  have unready: "\<not> isReady s \<longrightarrow> fst (keyUp (ModKey k) s) = False"
    by (simp add: keyUp_result not_ready_not_sendable)
  have am: "activeModifiers \<lparr>m_impl = m_impl s, os = (os s)\<lparr>write_ret := f\<rparr>\<rparr> = activeModifiers s"
    by (simp add: activeModifiers_def)
  show ?thesis
    using bit cleared unready
    by (simp add: mods keyUp_result sendable_write_ret am)
qed

theorem keyUp_clears_modifier_bit_witness:
  "Key_ShiftLeft \<in> {Key_ShiftLeft, Key_ShiftRight, Key_CtrlLeft, Key_CtrlRight,
         Key_AltLeft, Key_AltRight, Key_SuperLeft, Key_SuperRight}
   \<and> activeModifiers shift_held_write_fails = Modifier_Shift
   \<and> activeModifiers (snd (keyUp (ModKey Key_ShiftLeft) shift_held_write_fails)) = Modifier_None
   \<and> fst (keyUp (ModKey Key_ShiftLeft) shift_held_write_fails)"
proof -
  have k: "Key_ShiftLeft \<in> {Key_ShiftLeft, Key_ShiftRight, Key_CtrlLeft, Key_CtrlRight,
         Key_AltLeft, Key_AltRight, Key_SuperLeft, Key_SuperRight}" by simp
  have a: "activeModifiers shift_held_write_fails = Modifier_Shift"
    by (simp add: shift_held_write_fails_def activeModifiers_def)
  have s: "sendable shift_held_write_fails (ModKey Key_ShiftLeft)"
    by (simp add: shift_held_write_fails_def sendable_def linuxKeyCodeFor_def keyMap_modifiers)
  show ?thesis
    using k a s keyUp_clears_modifier_bit [OF k, of shift_held_write_fails]
    by (simp add: Modifier_None_def)
qed

subsection \<open>releaseAllModifiers\<close>

text \<open>
  Claim C3, as stated, fails: on a ready Sender \<open>releaseAllModifiers()\<close> writes key-up
  events for the codes 42, 29, 56 and 125 (left Shift, Ctrl, Alt, Super) only; none for
  CapsLock (code 58) or NumLock (code 69).
\<close>

theorem releaseAllModifiers_counterexample:
  "linuxKeyCodeFor (the (m_impl ready_sender)) (ModKey Key_CapsLock) = 58
   \<and> linuxKeyCodeFor (the (m_impl ready_sender)) (ModKey Key_NumLock) = 69
   \<and> events (os (snd (releaseAllModifiers ready_sender))) =
       [Write 3 1 42 0 24, Write 3 0 0 0 24, Write 3 1 29 0 24, Write 3 0 0 0 24,
        Write 3 1 56 0 24, Write 3 0 0 0 24, Write 3 1 125 0 24, Write 3 0 0 0 24]"
  by (simp add: releaseAllModifiers_def releaseModifier_def and_keyUp_def hasModifier_def
      Modifier_Shift_def Modifier_Ctrl_def Modifier_Alt_def Modifier_Super_def
      Modifier_None_def ready_sender_def keyUp_def sendKey_def linuxKeyCodeFor_def
      keyMap_modifiers emit_def sync_def syscall_def EV_KEY_def EV_SYN_def SYN_REPORT_def)

text \<open>
  Claim C3, amended. \<open>releaseAllModifiers()\<close> is \<open>releaseModifier\<close> applied to
  \<open>Shift | Ctrl | Alt | Super\<close>. That has the effect of \<open>releaseModifier\<close> on the full
  six-bit set, because \<open>releaseModifier\<close> ignores the CapsLock and NumLock bits: it is
  \<open>keyUp\<close> of ShiftLeft, CtrlLeft, AltLeft and SuperLeft, in this order, each attempted
  whatever the earlier ones returned.
\<close>

theorem releaseAllModifiers_four_keys:
  "releaseAllModifiers s =
     releaseModifier (Modifier_Shift OR Modifier_Ctrl OR Modifier_Alt OR Modifier_Super) s
   \<and> releaseAllModifiers s =
     releaseModifier (Modifier_Shift OR Modifier_Ctrl OR Modifier_Alt OR Modifier_Super
                      OR Modifier_CapsLock OR Modifier_NumLock) s
   \<and> releaseAllModifiers s =
     and_keyUp (ModKey Key_SuperLeft) (and_keyUp (ModKey Key_AltLeft)
       (and_keyUp (ModKey Key_CtrlLeft) (and_keyUp (ModKey Key_ShiftLeft) (True, s))))"
  by (simp add: releaseAllModifiers_def releaseModifier_def hasModifier_def
      Modifier_Shift_def Modifier_Ctrl_def Modifier_Alt_def Modifier_Super_def
      Modifier_CapsLock_def Modifier_NumLock_def)

subsection \<open>The bits of the tracked bitmask\<close>



lemma keyModifier_nibble: "keyModifier key AND NOT 15 = 0"
proof (cases key)
  case (ModKey k)
  then show ?thesis
    by (cases k)
      (simp_all add: Modifier_Shift_def Modifier_Ctrl_def Modifier_Alt_def Modifier_Super_def
        Modifier_None_def)
qed (simp_all add: Modifier_None_def)

lemma only_tracked_bits_iff: "only_tracked_bits s = (activeModifiers s AND NOT 15 = 0)"
  by (simp add: only_tracked_bits_def Modifier_Shift_def Modifier_Ctrl_def Modifier_Alt_def
      Modifier_Super_def)

lemma only_tracked_bits_keyDown:
  "only_tracked_bits s \<Longrightarrow> only_tracked_bits (snd (keyDown key s))"
  using keyModifier_nibble [of key]
  by (simp add: only_tracked_bits_iff keyDown_mods Modifier_None_def bit.conj_disj_distrib2
      del: bit.de_Morgan_disj bit.de_Morgan_conj)

lemma only_tracked_bits_keyUp:
  "only_tracked_bits s \<Longrightarrow> only_tracked_bits (snd (keyUp key s))"
proof -
  assume "only_tracked_bits s"
  then have "activeModifiers s AND NOT 15 = 0" by (simp add: only_tracked_bits_iff)
  then have "(activeModifiers s AND NOT 15) AND NOT (keyModifier key) = 0" by simp
  then have "(activeModifiers s AND NOT (keyModifier key)) AND NOT 15 = 0"
    by (simp only: and.assoc and.commute [of "NOT 15"])
  then show ?thesis by (simp only: only_tracked_bits_iff keyUp_mods)
qed

lemma only_tracked_bits_and_keyDown:
  "only_tracked_bits (snd acc) \<Longrightarrow> only_tracked_bits (snd (and_keyDown key acc))"
  by (simp add: and_keyDown_def split_beta only_tracked_bits_keyDown)

lemma only_tracked_bits_and_keyUp:
  "only_tracked_bits (snd acc) \<Longrightarrow> only_tracked_bits (snd (and_keyUp key acc))"
  by (simp add: and_keyUp_def split_beta only_tracked_bits_keyUp)

lemma only_tracked_bits_holdModifier:
  "only_tracked_bits s \<Longrightarrow> only_tracked_bits (snd (holdModifier mods s))"
  by (simp add: holdModifier_def Let_def only_tracked_bits_and_keyDown)

lemma only_tracked_bits_releaseModifier:
  "only_tracked_bits s \<Longrightarrow> only_tracked_bits (snd (releaseModifier mods s))"
  by (simp add: releaseModifier_def Let_def only_tracked_bits_and_keyUp)

lemma m_impl_delay_Some:
  "m_impl_delay s = Some s' \<Longrightarrow> m_impl s' = m_impl s \<and> m_impl s \<noteq> None"
  by (cases "m_impl s") (auto simp add: m_impl_delay_def)

lemma m_impl_delay_total: "m_impl s \<noteq> None \<Longrightarrow> \<exists>s'. m_impl_delay s = Some s'"
  by (cases "m_impl s") (simp_all add: m_impl_delay_def)

lemma only_tracked_bits_cong:
  "m_impl s' = m_impl s \<Longrightarrow> only_tracked_bits s' = only_tracked_bits s"
  by (simp add: only_tracked_bits_def activeModifiers_def)

lemma only_tracked_bits_tap:
  "only_tracked_bits s \<Longrightarrow> tap key s = Some (r, s') \<Longrightarrow> only_tracked_bits s'"
proof -
  assume inv: "only_tracked_bits s" and t: "tap key s = Some (r, s')"
  show ?thesis
  proof (cases "fst (keyDown key s)")
    case False
    with t have "s' = snd (keyDown key s)" by (simp add: tap_def split_beta)
    with inv show ?thesis by (simp add: only_tracked_bits_keyDown)
  next
    case True
    with t obtain s2 where d: "m_impl_delay (snd (keyDown key s)) = Some s2"
      and s': "s' = snd (keyUp key s2)"
      by (auto simp add: tap_def split_beta split: option.splits)
    from d have "only_tracked_bits s2 = only_tracked_bits (snd (keyDown key s))"
      by (intro only_tracked_bits_cong) (simp add: m_impl_delay_Some)
    with inv s' show ?thesis
      by (simp add: only_tracked_bits_keyDown only_tracked_bits_keyUp)
  qed
qed

lemma only_tracked_bits_combo:
  "only_tracked_bits s \<Longrightarrow> combo mods key s = Some (r, s') \<Longrightarrow> only_tracked_bits s'"
proof -
  assume inv: "only_tracked_bits s" and c: "combo mods key s = Some (r, s')"
  have h: "only_tracked_bits (snd (holdModifier mods s))"
    using inv by (rule only_tracked_bits_holdModifier)
  show ?thesis
  proof (cases "fst (holdModifier mods s)")
    case False
    with c have "s' = snd (holdModifier mods s)" by (simp add: combo_def split_beta)
    with h show ?thesis by simp
  next
    case True
    with c obtain s2 ok s3 s4 where d1: "m_impl_delay (snd (holdModifier mods s)) = Some s2"
      and t: "tap key s2 = Some (ok, s3)"
      and d2: "m_impl_delay s3 = Some s4"
      and s': "s' = snd (releaseModifier mods s4)"
      by (auto simp add: combo_def split_beta split: option.splits)
    from d1 h have "only_tracked_bits s2"
      using only_tracked_bits_cong [of s2 "snd (holdModifier mods s)"]
      by (simp add: m_impl_delay_Some)
    from this t have "only_tracked_bits s3" by (rule only_tracked_bits_tap)
    with d2 have "only_tracked_bits s4"
      using only_tracked_bits_cong [of s4 s3] by (simp add: m_impl_delay_Some)
    with s' show ?thesis by (simp add: only_tracked_bits_releaseModifier)
  qed
qed

lemma only_tracked_bits_perform:
  "only_tracked_bits s \<Longrightarrow> perform c s = Some s' \<Longrightarrow> only_tracked_bits s'"
proof (cases c)
  case (Call_tap key)
  assume "only_tracked_bits s" "perform c s = Some s'"
  with Call_tap show ?thesis by (auto dest: only_tracked_bits_tap)
next
  case (Call_combo mods key)
  assume "only_tracked_bits s" "perform c s = Some s'"
  with Call_combo show ?thesis by (auto dest: only_tracked_bits_combo)
next
  case Call_flush
  assume "only_tracked_bits s" "perform c s = Some s'"
  with Call_flush show ?thesis
    by (cases "m_impl s") (auto simp add: flush_def only_tracked_bits_def activeModifiers_def)
next
  case (Call_setKeyDelay d)
  assume "only_tracked_bits s" "perform c s = Some s'"
  with Call_setKeyDelay show ?thesis
    by (cases "m_impl s")
      (auto simp add: setKeyDelay_def only_tracked_bits_def activeModifiers_def)
qed (auto simp add: only_tracked_bits_keyDown only_tracked_bits_keyUp
    only_tracked_bits_holdModifier only_tracked_bits_releaseModifier releaseAllModifiers_def
    requestPermissions_def typeText_u32_def typeText_def typeCharacter_def)

lemma keyUp_m_impl_None: "(m_impl (snd (keyUp key s)) = None) = (m_impl s = None)"
  by (cases "m_impl s") (simp_all add: keyUp_None keyUp_Some)

lemma and_keyDown_m_impl_None:
  "(m_impl (snd (and_keyDown key acc)) = None) = (m_impl (snd acc) = None)"
  by (simp add: and_keyDown_def split_beta keyDown_m_impl_None)

lemma and_keyUp_m_impl_None:
  "(m_impl (snd (and_keyUp key acc)) = None) = (m_impl (snd acc) = None)"
  by (simp add: and_keyUp_def split_beta keyUp_m_impl_None)

lemma holdModifier_m_impl_None:
  "(m_impl (snd (holdModifier mods s)) = None) = (m_impl s = None)"
  by (simp add: holdModifier_def Let_def and_keyDown_m_impl_None)

lemma releaseModifier_m_impl_None:
  "(m_impl (snd (releaseModifier mods s)) = None) = (m_impl s = None)"
  by (simp add: releaseModifier_def Let_def and_keyUp_m_impl_None)

lemma tap_total:
  "m_impl s \<noteq> None \<Longrightarrow> \<exists>r s'. tap key s = Some (r, s') \<and> m_impl s' \<noteq> None"
proof -
  assume nn: "m_impl s \<noteq> None"
  then have nn1: "m_impl (snd (keyDown key s)) \<noteq> None" by (simp add: keyDown_m_impl_None)
  then obtain s2 where d: "m_impl_delay (snd (keyDown key s)) = Some s2"
    using m_impl_delay_total by blast
  then have "m_impl s2 \<noteq> None" by (simp add: m_impl_delay_Some)
  then have "m_impl (snd (keyUp key s2)) \<noteq> None" by (simp add: keyUp_m_impl_None)
  then have up: "\<exists>r s'. keyUp key s2 = (r, s') \<and> m_impl s' \<noteq> None"
    by (cases "keyUp key s2") simp
  show ?thesis
  proof (cases "fst (keyDown key s)")
    case True
    with d up show ?thesis by (simp add: tap_def split_beta)
  next
    case False
    with nn1 show ?thesis by (auto simp add: tap_def split_beta simp del: not_None_eq)
  qed
qed

lemma combo_total:
  "m_impl s \<noteq> None \<Longrightarrow> \<exists>r s'. combo mods key s = Some (r, s') \<and> m_impl s' \<noteq> None"
proof -
  assume nn: "m_impl s \<noteq> None"
  then have nn1: "m_impl (snd (holdModifier mods s)) \<noteq> None"
    by (simp add: holdModifier_m_impl_None)
  then obtain s2 where d1: "m_impl_delay (snd (holdModifier mods s)) = Some s2"
    using m_impl_delay_total by blast
  then have "m_impl s2 \<noteq> None" by (simp add: m_impl_delay_Some)
  then obtain ok s3 where t: "tap key s2 = Some (ok, s3)" and nn3: "m_impl s3 \<noteq> None"
    using tap_total by blast
  then obtain s4 where d2: "m_impl_delay s3 = Some s4"
    using m_impl_delay_total by blast
  then have "m_impl s4 \<noteq> None" by (simp add: m_impl_delay_Some)
  then have rel: "m_impl (snd (releaseModifier mods s4)) \<noteq> None"
    by (simp add: releaseModifier_m_impl_None)
  show ?thesis
  proof (cases "fst (holdModifier mods s)")
    case True
    with d1 t d2 rel show ?thesis by (simp add: combo_def split_beta del: not_None_eq)
  next
    case False
    with nn1 show ?thesis by (auto simp add: combo_def split_beta simp del: not_None_eq)
  qed
qed

lemma perform_total:
  "m_impl s \<noteq> None \<Longrightarrow> \<exists>s'. perform c s = Some s' \<and> m_impl s' \<noteq> None"
proof (cases c)
  case (Call_tap key)
  assume "m_impl s \<noteq> None"
  with Call_tap tap_total [of s key] show ?thesis by auto
next
  case (Call_combo mods key)
  assume "m_impl s \<noteq> None"
  with Call_combo combo_total [of s mods key] show ?thesis by auto
next
  case Call_flush
  assume "m_impl s \<noteq> None"
  with Call_flush show ?thesis by (cases "m_impl s") (simp_all add: flush_def)
next
  case (Call_setKeyDelay d)
  assume "m_impl s \<noteq> None"
  with Call_setKeyDelay show ?thesis by (cases "m_impl s") (simp_all add: setKeyDelay_def)
qed (simp_all add: keyDown_m_impl_None keyUp_m_impl_None holdModifier_m_impl_None
    releaseModifier_m_impl_None releaseAllModifiers_def requestPermissions_def
    typeText_u32_def typeText_def typeCharacter_def del: not_None_eq)

lemma perform_all_invariant:
  "m_impl s \<noteq> None \<Longrightarrow> only_tracked_bits s \<Longrightarrow>
   \<exists>s'. perform_all cs s = Some s' \<and> only_tracked_bits s'"
proof (induction cs arbitrary: s)
  case Nil
  then show ?case by simp
next
  case (Cons c cs)
  from perform_total [OF Cons.prems(1), of c]
  obtain s1 where p: "perform c s = Some s1" and nn: "m_impl s1 \<noteq> None" by blast
  from Cons.prems(2) p have "only_tracked_bits s1" by (rule only_tracked_bits_perform)
  with nn Cons.IH [of s1] p show ?case by simp
qed

lemma Impl_ctor_currentMods: "currentMods (fst (Impl_ctor w)) = Modifier_None"
  by (simp add: Impl_ctor_def Let_def initKeyMap_def)

lemma Sender_ctor_invariant:
  "m_impl (Sender_ctor w) \<noteq> None \<and> only_tracked_bits (Sender_ctor w)"
  by (simp add: Sender_ctor_m_impl only_tracked_bits_def activeModifiers_def
      Impl_ctor_currentMods Modifier_None_def)

lemma only_tracked_bits_no_locks:
  "only_tracked_bits s \<Longrightarrow>
   \<not> hasModifier (activeModifiers s) Modifier_CapsLock
   \<and> \<not> hasModifier (activeModifiers s) Modifier_NumLock"
proof -
  assume "only_tracked_bits s"
  then have z: "activeModifiers s AND NOT 15 = 0" by (simp add: only_tracked_bits_iff)
  have "activeModifiers s AND 16 = (activeModifiers s AND NOT 15) AND 16"
    by (simp add: and.assoc)
  moreover have "activeModifiers s AND 32 = (activeModifiers s AND NOT 15) AND 32"
    by (simp add: and.assoc)
  ultimately show ?thesis
    using z by (simp add: hasModifier_def Modifier_CapsLock_def Modifier_NumLock_def)
qed

text \<open>
  Claim C10. Starting from the constructor, every sequence of Sender calls runs to an
  end, and in the state it reaches \<open>activeModifiers()\<close> holds no bit other than Shift,
  Ctrl, Alt and Super: the CapsLock and NumLock bits are never set. \<open>keyDown\<close> and
  \<open>keyUp\<close> of \<open>Key::CapsLock\<close> and of \<open>Key::NumLock\<close> leave the bitmask as it was.
\<close>

theorem activeModifiers_only_tracked_bits:
  "(\<exists>s'. perform_all cs (Sender_ctor w) = Some s'
         \<and> only_tracked_bits s'
         \<and> \<not> hasModifier (activeModifiers s') Modifier_CapsLock
         \<and> \<not> hasModifier (activeModifiers s') Modifier_NumLock)
   \<and> activeModifiers (snd (keyDown (ModKey Key_CapsLock) s)) = activeModifiers s
   \<and> activeModifiers (snd (keyDown (ModKey Key_NumLock) s)) = activeModifiers s
   \<and> activeModifiers (snd (keyUp (ModKey Key_CapsLock) s)) = activeModifiers s
   \<and> activeModifiers (snd (keyUp (ModKey Key_NumLock) s)) = activeModifiers s"
proof -
  from Sender_ctor_invariant [of w] perform_all_invariant [of "Sender_ctor w" cs]
  obtain s' where "perform_all cs (Sender_ctor w) = Some s'" and "only_tracked_bits s'"
    by blast
  then have run: "\<exists>s'. perform_all cs (Sender_ctor w) = Some s'
         \<and> only_tracked_bits s'
         \<and> \<not> hasModifier (activeModifiers s') Modifier_CapsLock
         \<and> \<not> hasModifier (activeModifiers s') Modifier_NumLock"
    using only_tracked_bits_no_locks by blast
  have locks: "activeModifiers (snd (keyDown (ModKey Key_CapsLock) s)) = activeModifiers s"
    "activeModifiers (snd (keyDown (ModKey Key_NumLock) s)) = activeModifiers s"
    "activeModifiers (snd (keyUp (ModKey Key_CapsLock) s)) = activeModifiers s"
    "activeModifiers (snd (keyUp (ModKey Key_NumLock) s)) = activeModifiers s"
    by (cases "m_impl s";
        simp add: keyDown_mods keyUp_mods Modifier_None_def activeModifiers_None)+
  from run locks show ?thesis by blast
qed

subsection \<open>combo\<close>


lemma Sender_ctor_constructed_ready:
  "0 \<le> open_ret w \<Longrightarrow> constructed_ready (Sender_ctor w)"
  by (simp add: constructed_ready_def Sender_ctor_m_impl Impl_ctor_def Let_def syscall_def
      initKeyMap_def)



lemma constructed_ready_keyUp:
  "constructed_ready s \<Longrightarrow> constructed_ready (snd (keyUp key s))"
  by (cases "m_impl s") (simp_all add: constructed_ready_def keyUp_Some)









lemma sendable_keyUp: "sendable (snd (keyUp k s)) key = sendable s key"
  by (cases "m_impl s")
    (simp_all add: keyUp_None keyUp_Some sendable_def linuxKeyCodeFor_def)












subsection \<open>Key names\<close>

lemma find_unique_name:
  "distinct (map f xs) \<Longrightarrow> x \<in> set xs \<Longrightarrow> find (\<lambda>y. f y = f x) xs = Some x"
proof (induction xs)
  case Nil
  then show ?case by simp
next
  case (Cons y ys)
  then show ?case by (cases "y = x") auto
qed

lemma lowered_names_distinct:
  "distinct (map (\<lambda>key. map to_lower (keyToString key)) all_keys)"
  by (simp add: all_keys_def to_lower_def)

lemma all_keys_complete: "key \<in> set all_keys"
proof (cases key)
  case Key_Unknown
  then show ?thesis by (simp add: all_keys_def)
next
  case (Letter k)
  then show ?thesis by (cases k) (simp_all add: all_keys_def)
next
  case (Number k)
  then show ?thesis by (cases k) (simp_all add: all_keys_def)
next
  case (Function k)
  then show ?thesis by (cases k) (simp_all add: all_keys_def)
next
  case (Control k)
  then show ?thesis by (cases k) (simp_all add: all_keys_def)
next
  case (Navigation k)
  then show ?thesis by (cases k) (simp_all add: all_keys_def)
next
  case (Numpad k)
  then show ?thesis by (cases k) (simp_all add: all_keys_def)
next
  case (ModKey k)
  then show ?thesis by (cases k) (simp_all add: all_keys_def)
next
  case (Misc k)
  then show ?thesis by (cases k) (simp_all add: all_keys_def)
next
  case (Punctuation k)
  then show ?thesis by (cases k) (simp_all add: all_keys_def)
qed

text \<open>
  Claim C6. For every key other than \<open>Unknown\<close>, \<open>stringToKey(keyToString(key))\<close> is the
  key again.
\<close>

theorem stringToKey_keyToString:
  "key \<noteq> Key_Unknown \<Longrightarrow> stringToKey (keyToString key) = key"
proof -
  have "find (\<lambda>k. map to_lower (keyToString k) = map to_lower (keyToString key)) all_keys =
      Some key"
    using lowered_names_distinct all_keys_complete by (rule find_unique_name)
  then show ?thesis by (simp add: stringToKey_def)
qed

theorem stringToKey_keyToString_witness:
  "Letter Key_A \<noteq> Key_Unknown
   \<and> keyToString (Letter Key_A) = ''A''
   \<and> stringToKey (keyToString (Letter Key_A)) = Letter Key_A
   \<and> stringToKey ''esc'' = Control Key_Escape
   \<and> stringToKey ''no-such-key'' = Key_Unknown"
proof -
  have h: "Letter Key_A \<noteq> Key_Unknown" by simp
  have e: "stringToKey ''esc'' = Control Key_Escape"
    "stringToKey ''no-such-key'' = Key_Unknown"
    by (simp_all add: stringToKey_def all_keys_def key_aliases_def to_lower_def)
  from stringToKey_keyToString [OF h] e show ?thesis by simp
qed

subsection \<open>Null arguments at the C API\<close>

lemma invalid_argument_names:
  "invalid_argument c = Some arg \<Longrightarrow>
   arg \<in> {''sender'', ''listener'', ''utf8_text'', ''callback''}"
  by (cases c rule: invalid_argument.cases)
    (auto split: option.splits elim: null_handle.elims)

text \<open>
  Claim C7. A call of the C API with a null argument returns false, leaves the Sender,
  the Listener and the operating system untouched, and replaces whatever the last-error
  slot held by a description that contains the name of the null argument. The argument
  named is "sender" for a null Sender handle, "utf8_text" for a null text and "callback"
  for a null callback.
\<close>

theorem capi_null_argument:
  "invalid_argument c = Some arg \<Longrightarrow>
   (\<exists>msg. capi c p = Some (False, p\<lparr>last_error := Some msg\<rparr>)
          \<and> sublist arg msg
          \<and> typr_io_get_last_error (p\<lparr>last_error := Some msg\<rparr>) = Some msg)
   \<and> arg \<in> {''sender'', ''listener'', ''utf8_text'', ''callback''}
   \<and> invalid_argument (typr_io_sender_key_down NULL key) = Some ''sender''
   \<and> invalid_argument (typr_io_sender_type_text_utf8 Instance None) = Some ''utf8_text''
   \<and> invalid_argument (typr_io_listener_start Instance None) = Some ''callback''"
proof -
  assume inv: "invalid_argument c = Some arg"
  define msg where "msg = capi_name c @ '': '' @ arg @ '' is NULL''"
  have "sublist arg msg"
    unfolding sublist_def msg_def by (intro exI [of _ "capi_name c @ '': ''"] exI) simp
  moreover have "capi c p = Some (False, p\<lparr>last_error := Some msg\<rparr>)"
    using inv by (simp add: capi_def set_last_error_def msg_def)
  ultimately show ?thesis
    using invalid_argument_names [OF inv]
    by (auto simp add: typr_io_get_last_error_def)
qed

theorem capi_null_argument_witness:
  "invalid_argument (typr_io_sender_key_down NULL (Letter Key_A)) = Some ''sender''
   \<and> capi (typr_io_sender_key_down NULL (Letter Key_A)) example_process =
       Some (False, example_process
               \<lparr>last_error := Some ''typr_io_sender_key_down: sender is NULL''\<rparr>)
   \<and> sublist ''sender'' ''typr_io_sender_key_down: sender is NULL''"
proof -
  have h: "invalid_argument (typr_io_sender_key_down NULL (Letter Key_A)) = Some ''sender''"
    by simp
  have c: "capi (typr_io_sender_key_down NULL (Letter Key_A)) example_process =
       Some (False, example_process
               \<lparr>last_error := Some ''typr_io_sender_key_down: sender is NULL''\<rparr>)"
    by (simp add: capi_def set_last_error_def)
  from capi_null_argument [OF h, of example_process] c
  have "sublist ''sender'' ''typr_io_sender_key_down: sender is NULL''"
    by (auto simp add: example_process_def)
  with h c show ?thesis by simp
qed

end
